theory Spec2Isabelle
  imports Main
begin

section \<open>Data model (job.type.ts, job.data.type.ts)\<close>

text \<open>
  Modelled from the spec: \<open>PlatformType\<close> is declared in
  \<open>src/etaRegister/dtos/school.query.dto\<close>, which is not among the sources. The spec
  speaks of two external systems a job is routed to; the pass compares against
  \<open>PlatformType.ETA\<close> and the examples of the queue service use \<open>'LIDER'\<close>.
\<close>

datatype PlatformType = ETA | LIDER

fun platformName :: "PlatformType \<Rightarrow> string" where
  "platformName ETA = ''ETA''"
| "platformName LIDER = ''LIDER''"

text \<open>
  Modelled from the spec: the three DTO classes of \<open>JobData.data\<close> are not among the
  sources either. The queue reads one field of them, \<open>macAddress\<close> (the correlation key of
  the spec); everything else they carry is kept as an uninterpreted list of fields.
\<close>

record SchoolDto =
  macAddress :: string
  otherFields :: "(string \<times> string) list"

record JobData =
  data :: SchoolDto
  targetRequestDomain :: PlatformType
  process :: string
  key :: "string option"

text \<open>
  The interface \<open>Job\<close>. Its fields \<open>id\<close> and \<open>data\<close> are called \<open>job_id\<close> and
  \<open>job_data\<close> here (\<open>id\<close> is the identity function of HOL, \<open>data\<close> is the field of
  \<open>JobData\<close>). The numbers of a job are counts and milliseconds: integers.
\<close>

record Job =
  job_id :: string
  job_data :: JobData
  retries :: int
  delay :: int
  timestamp :: int

text \<open>\<open>Partial<Job>\<close>: every field of a job may be given or left out.\<close>

record PartialJob =
  id_upd :: "string option"
  data_upd :: "JobData option"
  retries_upd :: "int option"
  delay_upd :: "int option"
  timestamp_upd :: "int option"

definition noFields :: PartialJob where
  "noFields = \<lparr>id_upd = None, data_upd = None, retries_upd = None,
                delay_upd = None, timestamp_upd = None\<rparr>"

text \<open>The object spread \<open>{ ...job, ...updatedJobData }\<close>.\<close>

definition spread :: "Job \<Rightarrow> PartialJob \<Rightarrow> Job" where
  "spread job updatedJobData =
     \<lparr>job_id = (case id_upd updatedJobData of None \<Rightarrow> job_id job | Some v \<Rightarrow> v),
      job_data = (case data_upd updatedJobData of None \<Rightarrow> job_data job | Some v \<Rightarrow> v),
      retries = (case retries_upd updatedJobData of None \<Rightarrow> retries job | Some v \<Rightarrow> v),
      delay = (case delay_upd updatedJobData of None \<Rightarrow> delay job | Some v \<Rightarrow> v),
      timestamp = (case timestamp_upd updatedJobData of None \<Rightarrow> timestamp job | Some v \<Rightarrow> v)\<rparr>"

section \<open>The in-memory queue service (memory.queue.service.ts)\<close>

text \<open>
  The private field \<open>queues = new Map<string, Job[]>()\<close>. Every method takes the store and
  returns the store it leaves behind; an array mutated in place is the entry of the map
  being replaced.
\<close>

type_synonym QueueStore = "string \<rightharpoonup> Job list"

text \<open>\<open>Array.prototype.findIndex\<close>; \<open>None\<close> stands for \<open>-1\<close>.\<close>

fun findIndex :: "('a \<Rightarrow> bool) \<Rightarrow> 'a list \<Rightarrow> nat option" where
  "findIndex P [] = None"
| "findIndex P (x # xs) = (if P x then Some 0 else map_option Suc (findIndex P xs))"

text \<open>\<open>queue.splice(jobIndex, 1)\<close>.\<close>

definition splice1 :: "nat \<Rightarrow> 'a list \<Rightarrow> 'a list" where
  "splice1 jobIndex queue = take jobIndex queue @ drop (Suc jobIndex) queue"

definition getQueue :: "string \<Rightarrow> QueueStore \<Rightarrow> Job list \<times> QueueStore" where
  "getQueue queueName queues =
     (case queues queueName of
        None \<Rightarrow> ([], queues(queueName \<mapsto> []))
      | Some queue \<Rightarrow> (queue, queues))"

text \<open>
  \<open>generateJobId\<close>. The SHA-256 digest of \<open>JSON.stringify(jobData)\<close> comes from the
  \<open>crypto\<close> library; it is the parameter \<open>digest\<close>.
\<close>

definition generateJobId :: "(JobData \<Rightarrow> string) \<Rightarrow> string \<Rightarrow> JobData \<Rightarrow> string" where
  "generateJobId digest queueName jobData =
     queueName @ ''-'' @ process jobData @ ''-'' @ platformName (targetRequestDomain jobData)
       @ ''-'' @ macAddress (data jobData) @ ''-'' @ digest jobData"

text \<open>\<open>createJob\<close>; \<open>now\<close> is the value of \<open>Date.now()\<close>.\<close>

definition createJob ::
  "(JobData \<Rightarrow> string) \<Rightarrow> int \<Rightarrow> string \<Rightarrow> JobData \<Rightarrow> int \<Rightarrow> int \<Rightarrow> Job" where
  "createJob digest now queueName jobData retries' delay' =
     \<lparr>job_id = generateJobId digest queueName jobData,
      job_data = jobData,
      retries = retries',
      delay = delay',
      timestamp = now\<rparr>"

definition hasJob :: "string \<Rightarrow> string \<Rightarrow> QueueStore \<Rightarrow> bool \<times> QueueStore" where
  "hasJob queueName jobId queues =
     (let (queue, queues1) = getQueue queueName queues
      in (list_ex (\<lambda>job. job_id job = jobId) queue, queues1))"

definition addJob ::
  "(JobData \<Rightarrow> string) \<Rightarrow> int \<Rightarrow> string \<Rightarrow> JobData \<Rightarrow> int \<Rightarrow> int \<Rightarrow> QueueStore \<Rightarrow> QueueStore" where
  "addJob digest now queueName jobData retries' delay' queues =
     (let job = createJob digest now queueName jobData retries' delay';
          (queue, queues1) = getQueue queueName queues;
          (found, queues2) = hasJob queueName (job_id job) queues1
      in if found then queues2
         else queues2(queueName \<mapsto> queue @ [job]))"

definition getNextJob :: "string \<Rightarrow> QueueStore \<Rightarrow> Job option \<times> QueueStore" where
  "getNextJob queueName queues =
     (let (queue, queues1) = getQueue queueName queues
      in if length queue = 0 then (None, queues1)
         else (Some (queue ! 0), queues1))"

definition dequeueJob :: "string \<Rightarrow> string \<Rightarrow> QueueStore \<Rightarrow> QueueStore" where
  "dequeueJob queueName jobId queues =
     (let (queue, queues1) = getQueue queueName queues
      in case findIndex (\<lambda>job. job_id job = jobId) queue of
           Some jobIndex \<Rightarrow> queues1(queueName \<mapsto> splice1 jobIndex queue)
         | None \<Rightarrow> queues1)"

definition updateJob ::
  "string \<Rightarrow> string \<Rightarrow> PartialJob \<Rightarrow> QueueStore \<Rightarrow> bool \<times> QueueStore" where
  "updateJob queueName jobId updatedJobData queues =
     (let (queue, queues1) = getQueue queueName queues
      in case findIndex (\<lambda>job. job_id job = jobId) queue of
           None \<Rightarrow> (False, queues1)
         | Some jobIndex \<Rightarrow>
             (True, queues1(queueName \<mapsto> queue[jobIndex := spread (queue ! jobIndex) updatedJobData])))"

section \<open>Basic facts about the store\<close>

lemma findIndex_None: "findIndex P xs = None \<longleftrightarrow> (\<forall>x \<in> set xs. \<not> P x)"
  by (induction xs) auto

lemma findIndex_Some:
  "findIndex P xs = Some i \<Longrightarrow> i < length xs \<and> P (xs ! i) \<and> (\<forall>k < i. \<not> P (xs ! k))"
proof (induction xs arbitrary: i)
  case Nil
  then show ?case by simp
next
  case (Cons x xs)
  show ?case
  proof (cases "P x")
    case True
    with Cons.prems show ?thesis by simp
  next
    case False
    with Cons.prems obtain j where j: "findIndex P xs = Some j" "i = Suc j"
      by auto
    from Cons.IH [OF j(1)] have "j < length xs" "P (xs ! j)" "\<forall>k < j. \<not> P (xs ! k)"
      by simp_all
    with False j(2) show ?thesis
      by (auto simp: nth_Cons split: nat.splits)
  qed
qed


section \<open>The scheduled pass (CronService.processQueue)\<close>

definition ETA_LIDER_TASK :: string where
  "ETA_LIDER_TASK = ''etaLiderTask''"

text \<open>
  The collaborator \<open>EtaLiderService\<close> performs the remote calls. Of each awaited call
  the pass observes only whether it resolves (\<open>True\<close>) or throws (\<open>False\<close>).
\<close>

record EtaLiderService =
  getSchoolByMacAddress :: "string \<Rightarrow> PlatformType \<Rightarrow> bool"
  updateEtaSchoolInfoByMacAddress :: "SchoolDto \<Rightarrow> bool"
  updateLiderSchoolByMacAddress :: "SchoolDto \<Rightarrow> bool"

text \<open>The routing at the head of the \<open>try\<close> block.\<close>

definition dispatch :: "EtaLiderService \<Rightarrow> JobData \<Rightarrow> bool" where
  "dispatch etaLiderService jobData =
     (if process jobData = ''GET''
      then getSchoolByMacAddress etaLiderService (macAddress (data jobData))
             (targetRequestDomain jobData)
      else if targetRequestDomain jobData = ETA
      then updateEtaSchoolInfoByMacAddress etaLiderService (data jobData)
      else updateLiderSchoolByMacAddress etaLiderService (data jobData))"

text \<open>
  The local variable \<open>queue\<close> of the pass is the array held by the store under
  \<open>ETA_LIDER_TASK\<close>, not a copy: \<open>getQueue\<close> returns \<open>this.queues.get(queueName)\<close>. Reading
  \<open>queue\<close> is reading the store.
\<close>

definition liveQueue :: "QueueStore \<Rightarrow> Job list" where
  "liveQueue queues = (case queues ETA_LIDER_TASK of None \<Rightarrow> [] | Some queue \<Rightarrow> queue)"

text \<open>
  One turn of the \<open>for\<close> loop, for \<open>index < queue.length\<close>. The turn either goes on to
  \<open>index++\<close> or leaves the function with a \<open>TypeError\<close>:
  \<^item> when the remote call resolves, the job is dequeued and the log line then reads
    \<open>queue[index].id\<close>. If the array has shrunk to \<open>index\<close> elements, \<open>queue[index]\<close> is
    \<open>undefined\<close> and the read throws inside \<open>try\<close>; the \<open>catch\<close> block reads
    \<open>queue[index].retries\<close>, which throws again, now outside any handler;
  \<^item> when the remote call throws, \<open>queue[index]\<close> is still the job: with retries left they
    are decremented in place and \<open>updateJob\<close> is called with the new value, otherwise the
    job is dequeued.
\<close>

datatype Step = Continue QueueStore | Throw QueueStore

definition processJob :: "EtaLiderService \<Rightarrow> nat \<Rightarrow> QueueStore \<Rightarrow> Step" where
  "processJob etaLiderService index queues =
     (let job = liveQueue queues ! index
      in if dispatch etaLiderService (job_data job)
         then (let queues1 = dequeueJob ETA_LIDER_TASK (job_id job) queues
               in if index < length (liveQueue queues1) then Continue queues1
                  else Throw queues1)
         else if retries job > 0
         then (let queues1 = queues(ETA_LIDER_TASK \<mapsto>
                               (liveQueue queues)[index := job\<lparr>retries := retries job - 1\<rparr>]);
                   queues2 = snd (updateJob ETA_LIDER_TASK (job_id (liveQueue queues1 ! index))
                                   (noFields\<lparr>retries_upd := Some (retries (liveQueue queues1 ! index))\<rparr>)
                                   queues1)
               in Continue queues2)
         else Continue (dequeueJob ETA_LIDER_TASK (job_id job) queues))"

text \<open>
  What a call of \<open>processQueue\<close> leaves behind: how it ended, the store, and the jobs whose
  remote call was made, in the order of the calls.
\<close>

datatype Outcome = Returned | Rejected

lemma findIndex_less: "findIndex P xs = Some i \<Longrightarrow> i < length xs"
  by (induction xs arbitrary: i) (auto split: if_splits)

lemma length_liveQueue_dequeueJob:
  "length (liveQueue (dequeueJob ETA_LIDER_TASK jobId queues)) \<le> length (liveQueue queues)"
  by (auto simp: dequeueJob_def getQueue_def liveQueue_def splice1_def
           split: option.splits dest: findIndex_less)

lemma length_liveQueue_updateJob:
  "length (liveQueue (snd (updateJob ETA_LIDER_TASK jobId updatedJobData queues)))
     = length (liveQueue queues)"
  by (auto simp: updateJob_def getQueue_def liveQueue_def split: option.splits)

lemma length_liveQueue_processJob:
  "processJob etaLiderService index queues = Continue queues' \<Longrightarrow>
     length (liveQueue queues') \<le> length (liveQueue queues)"
  by (auto simp: processJob_def Let_def length_liveQueue_dequeueJob length_liveQueue_updateJob
                 liveQueue_def [of "queues(ETA_LIDER_TASK \<mapsto> _)"]
           split: if_splits)

function processLoop ::
  "EtaLiderService \<Rightarrow> nat \<Rightarrow> QueueStore \<Rightarrow> Job list \<Rightarrow> Outcome \<times> QueueStore \<times> Job list" where
  "processLoop etaLiderService index queues dispatched =
     (if index < length (liveQueue queues)
      then (case processJob etaLiderService index queues of
              Continue queues' \<Rightarrow>
                processLoop etaLiderService (Suc index) queues'
                  (dispatched @ [liveQueue queues ! index])
            | Throw queues' \<Rightarrow>
                (Rejected, queues', dispatched @ [liveQueue queues ! index]))
      else (Returned, queues, dispatched))"
  by pat_completeness auto
termination
proof (relation "measure (\<lambda>(etaLiderService, index, queues, dispatched).
                             length (liveQueue queues) - index)")
  show "wf (measure (\<lambda>(etaLiderService, index, queues, dispatched).
                        length (liveQueue queues) - index))"
    by simp
next
  fix etaLiderService :: EtaLiderService and index :: nat and queues queues' :: QueueStore
    and dispatched :: "Job list"
  assume "index < length (liveQueue queues)"
    and "processJob etaLiderService index queues = Continue queues'"
  then show "((etaLiderService, Suc index, queues', dispatched @ [liveQueue queues ! index]),
              (etaLiderService, index, queues, dispatched))
             \<in> measure (\<lambda>(etaLiderService, index, queues, dispatched).
                             length (liveQueue queues) - index)"
    using length_liveQueue_processJob [of etaLiderService index queues queues'] by simp
qed

declare processLoop.simps [simp del]

definition processQueue ::
  "EtaLiderService \<Rightarrow> QueueStore \<Rightarrow> Outcome \<times> QueueStore \<times> Job list" where
  "processQueue etaLiderService queues =
     (let (queue, queues1) = getQueue ETA_LIDER_TASK queues
      in if length queue = 0 then (Returned, queues1, [])
         else processLoop etaLiderService 0 queues1 [])"

text \<open>
  The cron job calls \<open>processQueue\<close> at every tick. \<open>runPasses\<close> runs one pass per
  remote end in the list, each on the store the previous one left (however that one
  ended), and collects the jobs dispatched.
\<close>

fun runPasses :: "EtaLiderService list \<Rightarrow> QueueStore \<Rightarrow> QueueStore \<times> Job list" where
  "runPasses [] queues = (queues, [])"
| "runPasses (etaLiderService # later) queues =
     (case processQueue etaLiderService queues of
        (outcome, queues1, dispatched) \<Rightarrow>
          (case runPasses later queues1 of
             (queues2, dispatched2) \<Rightarrow> (queues2, dispatched @ dispatched2)))"

section \<open>Sequences of calls to the queue service\<close>

text \<open>The public operations of the store the invariant is about, with their arguments.\<close>

datatype Operation =
    AddJob string JobData int int int
  | GetNextJob string
  | DequeueJob string string
  | HasJob string string
  | UpdateJob string string PartialJob

fun perform :: "(JobData \<Rightarrow> string) \<Rightarrow> Operation \<Rightarrow> QueueStore \<Rightarrow> QueueStore" where
  "perform digest (AddJob queueName jobData retries' delay' now) queues =
     addJob digest now queueName jobData retries' delay' queues"
| "perform digest (GetNextJob queueName) queues = snd (getNextJob queueName queues)"
| "perform digest (DequeueJob queueName jobId) queues = dequeueJob queueName jobId queues"
| "perform digest (HasJob queueName jobId) queues = snd (hasJob queueName jobId queues)"
| "perform digest (UpdateJob queueName jobId updatedJobData) queues =
     snd (updateJob queueName jobId updatedJobData queues)"

fun performAll :: "(JobData \<Rightarrow> string) \<Rightarrow> Operation list \<Rightarrow> QueueStore \<Rightarrow> QueueStore" where
  "performAll digest [] queues = queues"
| "performAll digest (operation # operations) queues =
     performAll digest operations (perform digest operation queues)"

definition jobsOf :: "QueueStore \<Rightarrow> string \<Rightarrow> Job list" where
  "jobsOf queues queueName = (case queues queueName of None \<Rightarrow> [] | Some queue \<Rightarrow> queue)"

text \<open>Invariant I1 for one queue name.\<close>

definition noDuplicateIds :: "QueueStore \<Rightarrow> string \<Rightarrow> bool" where
  "noDuplicateIds queues queueName = distinct (map job_id (jobsOf queues queueName))"

text \<open>An operation that does not rename a job: every one but an \<open>updateJob\<close> whose partial
  fields carry an \<open>id\<close> other than the one it addresses.\<close>

fun keepsId :: "Operation \<Rightarrow> bool" where
  "keepsId (UpdateJob queueName jobId updatedJobData) =
     (id_upd updatedJobData = None \<or> id_upd updatedJobData = Some jobId)"
| "keepsId operation = True"

section \<open>Jobs and stores up to the delay field\<close>

definition withoutDelay :: "Job \<Rightarrow> Job" where
  "withoutDelay job = job\<lparr>delay := 0\<rparr>"

definition withoutDelays :: "QueueStore \<Rightarrow> QueueStore" where
  "withoutDelays queues = (\<lambda>queueName. map_option (map withoutDelay) (queues queueName))"

definition stepWithoutDelays :: "Step \<Rightarrow> Step" where
  "stepWithoutDelays step =
     (case step of Continue queues \<Rightarrow> Continue (withoutDelays queues)
                 | Throw queues \<Rightarrow> Throw (withoutDelays queues))"

section \<open>Sample data for the worked examples\<close>

text \<open>
  A stand-in for the SHA-256 digest, used only where an example has to be evaluated; the
  general theorems hold for every \<open>digest\<close>.
\<close>

definition sampleDigest :: "JobData \<Rightarrow> string" where
  "sampleDigest jobData = ''sha256/'' @ process jobData @ ''/'' @ macAddress (data jobData)"

definition jobDataA :: JobData where
  "jobDataA = \<lparr>data = \<lparr>macAddress = ''AA:BB:CC'', otherFields = []\<rparr>,
               targetRequestDomain = ETA, process = ''GET'', key = None\<rparr>"

definition jobDataB :: JobData where
  "jobDataB = \<lparr>data = \<lparr>macAddress = ''11:22:33'', otherFields = []\<rparr>,
               targetRequestDomain = LIDER, process = ''UPDATE'', key = None\<rparr>"

definition jobDataC :: JobData where
  "jobDataC = \<lparr>data = \<lparr>macAddress = ''CC:DD:EE'', otherFields = []\<rparr>,
               targetRequestDomain = ETA, process = ''UPDATE'', key = None\<rparr>"

definition jobA :: "int \<Rightarrow> Job" where
  "jobA r = createJob sampleDigest 1000 ETA_LIDER_TASK jobDataA r 0"

definition jobB :: "int \<Rightarrow> Job" where
  "jobB r = createJob sampleDigest 2000 ETA_LIDER_TASK jobDataB r 0"

definition jobC :: "int \<Rightarrow> Job" where
  "jobC r = createJob sampleDigest 3000 ETA_LIDER_TASK jobDataC r 0"

text \<open>Remote ends that always answer, never answer, or answer only to writes.\<close>

definition allResolve :: EtaLiderService where
  "allResolve = \<lparr>getSchoolByMacAddress = (\<lambda>mac domain. True),
                 updateEtaSchoolInfoByMacAddress = (\<lambda>dto. True),
                 updateLiderSchoolByMacAddress = (\<lambda>dto. True)\<rparr>"

definition allThrow :: EtaLiderService where
  "allThrow = \<lparr>getSchoolByMacAddress = (\<lambda>mac domain. False),
               updateEtaSchoolInfoByMacAddress = (\<lambda>dto. False),
               updateLiderSchoolByMacAddress = (\<lambda>dto. False)\<rparr>"

definition readsThrow :: EtaLiderService where
  "readsThrow = \<lparr>getSchoolByMacAddress = (\<lambda>mac domain. False),
                 updateEtaSchoolInfoByMacAddress = (\<lambda>dto. True),
                 updateLiderSchoolByMacAddress = (\<lambda>dto. True)\<rparr>"

lemmas sample_defs =
  jobA_def jobB_def jobC_def jobDataA_def jobDataB_def jobDataC_def sampleDigest_def
  createJob_def generateJobId_def ETA_LIDER_TASK_def

section \<open>The store: enqueueing, reading, updating\<close>

lemma findIndex_first:
  "i < length xs \<Longrightarrow> P (xs ! i) \<Longrightarrow> \<forall>k < i. \<not> P (xs ! k) \<Longrightarrow> findIndex P xs = Some i"
proof (induction xs arbitrary: i)
  case Nil
  then show ?case by simp
next
  case (Cons x xs)
  show ?case
  proof (cases i)
    case 0
    with Cons.prems show ?thesis by simp
  next
    case (Suc j)
    from Cons.prems Suc have "\<not> P x" by auto
    moreover from Cons.prems Suc have "findIndex P xs = Some j"
      by (intro Cons.IH) auto
    ultimately show ?thesis using Suc by simp
  qed
qed




text \<open>
  What \<open>updateJob\<close> does for a name the store has no queue for: it answers \<open>false\<close>, and
  \<open>getQueue\<close> has registered the empty queue under the name.
\<close>

lemma updateJob_unknown_queue:
  "queues queueName = None \<Longrightarrow>
     updateJob queueName jobId updatedJobData queues = (False, queues(queueName \<mapsto> []))"
  by (simp add: updateJob_def getQueue_def)

text \<open>
  C7, as the claim states it, fails: \<open>updateJob\<close> goes through \<open>getQueue\<close>. Called for a
  name the store has not seen, it finds no job with the id and answers \<open>false\<close>, but it
  has not changed nothing: the empty store is no longer empty afterwards.
\<close>

theorem updateJob_registers_queue:
  "updateJob ''q'' ''no-such-id'' noFields Map.empty = (False, [''q'' \<mapsto> []])
   \<and> snd (updateJob ''q'' ''no-such-id'' noFields Map.empty) \<noteq> Map.empty"
  by (simp add: updateJob_def getQueue_def)

text \<open>
  C7, amended. For every store, queue name and job id:
  \<^item> if the store holds a queue under the name and a job with the id is in it, \<open>updateJob\<close>
    answers \<open>true\<close> and the queue afterwards is the old one with the job at the first
    position of that id replaced by its merge with the partial fields: same length, same
    position, every other job and every other queue as before;
  \<^item> if the store holds a queue under the name and no job in it has the id, \<open>updateJob\<close>
    answers \<open>false\<close> and the store is the one it was given;
  \<^item> if the store holds no queue under the name, \<open>updateJob\<close> answers \<open>false\<close>, registers
    the empty queue under the name and changes nothing else.
\<close>

theorem updateJob_merges_in_place:
  "(\<forall>queue. queues queueName = Some queue \<longrightarrow>
      (\<forall>i. i < length queue \<and> job_id (queue ! i) = jobId
               \<and> (\<forall>k < i. job_id (queue ! k) \<noteq> jobId)
            \<longrightarrow> updateJob queueName jobId updatedJobData queues
                 = (True, queues(queueName \<mapsto> queue[i := spread (queue ! i) updatedJobData])))
      \<and> (jobId \<notin> job_id ` set queue
            \<longrightarrow> updateJob queueName jobId updatedJobData queues = (False, queues)))
   \<and> (queues queueName = None \<longrightarrow>
        updateJob queueName jobId updatedJobData queues = (False, queues(queueName \<mapsto> [])))"
proof (intro conjI allI impI)
  fix queue i
  assume q: "queues queueName = Some queue"
    and "i < length queue \<and> job_id (queue ! i) = jobId
            \<and> (\<forall>k < i. job_id (queue ! k) \<noteq> jobId)"
  then have "findIndex (\<lambda>job. job_id job = jobId) queue = Some i"
    by (intro findIndex_first) auto
  with q show "updateJob queueName jobId updatedJobData queues
                 = (True, queues(queueName \<mapsto> queue[i := spread (queue ! i) updatedJobData]))"
    by (simp add: updateJob_def getQueue_def)
next
  fix queue
  assume q: "queues queueName = Some queue" and "jobId \<notin> job_id ` set queue"
  then have "findIndex (\<lambda>job. job_id job = jobId) queue = None"
    by (auto simp: findIndex_None)
  with q show "updateJob queueName jobId updatedJobData queues = (False, queues)"
    by (simp add: updateJob_def getQueue_def)
next
  assume "queues queueName = None"
  then show "updateJob queueName jobId updatedJobData queues = (False, queues(queueName \<mapsto> []))"
    by (rule updateJob_unknown_queue)
qed

theorem updateJob_merges_in_place_witness:
  "updateJob ETA_LIDER_TASK (job_id (jobB 3)) (noFields\<lparr>retries_upd := Some 2\<rparr>)
     [ETA_LIDER_TASK \<mapsto> [jobA 0, jobB 3]]
   = (True, [ETA_LIDER_TASK \<mapsto> [jobA 0, jobB 2]])
   \<and> updateJob ETA_LIDER_TASK ''no-such-id'' (noFields\<lparr>retries_upd := Some 2\<rparr>)
       [ETA_LIDER_TASK \<mapsto> [jobA 0, jobB 3]]
     = (False, [ETA_LIDER_TASK \<mapsto> [jobA 0, jobB 3]])
   \<and> updateJob ''other'' (job_id (jobB 3)) (noFields\<lparr>retries_upd := Some 2\<rparr>)
       [ETA_LIDER_TASK \<mapsto> [jobA 0, jobB 3]]
     = (False, [ETA_LIDER_TASK \<mapsto> [jobA 0, jobB 3], ''other'' \<mapsto> []])"
proof -
  let ?queues = "[ETA_LIDER_TASK \<mapsto> [jobA 0, jobB 3]]"
  let ?upd = "noFields\<lparr>retries_upd := Some 2\<rparr>"
  have q: "?queues ETA_LIDER_TASK = Some [jobA 0, jobB 3]"
    by simp
  have unseen: "?queues ''other'' = None"
    by (simp add: ETA_LIDER_TASK_def)
  have found: "1 < length [jobA 0, jobB 3] \<and> job_id ([jobA 0, jobB 3] ! 1) = job_id (jobB 3)
                 \<and> (\<forall>k < 1. job_id ([jobA 0, jobB 3] ! k) \<noteq> job_id (jobB 3))"
    by (simp add: sample_defs)
  have absent: "''no-such-id'' \<notin> job_id ` set [jobA 0, jobB 3]"
    by (simp add: sample_defs)
  have merged: "spread (jobB 3) ?upd = jobB 2"
    by (simp add: spread_def noFields_def jobB_def createJob_def)
  from updateJob_merges_in_place [where queues = ?queues and queueName = ETA_LIDER_TASK
      and jobId = "job_id (jobB 3)" and updatedJobData = ?upd] q found
  have "updateJob ETA_LIDER_TASK (job_id (jobB 3)) ?upd ?queues
          = (True, ?queues(ETA_LIDER_TASK \<mapsto>
               [jobA 0, jobB 3][1 := spread ([jobA 0, jobB 3] ! 1) ?upd]))"
    by blast
  then have first: "updateJob ETA_LIDER_TASK (job_id (jobB 3)) ?upd ?queues
          = (True, [ETA_LIDER_TASK \<mapsto> [jobA 0, jobB 2]])"
    by (simp add: merged)
  from updateJob_merges_in_place [where queues = ?queues and queueName = ETA_LIDER_TASK
      and jobId = "''no-such-id''" and updatedJobData = ?upd] q absent
  have second: "updateJob ETA_LIDER_TASK ''no-such-id'' ?upd ?queues = (False, ?queues)"
    by blast
  from updateJob_merges_in_place [where queues = ?queues and queueName = "''other''"
      and jobId = "job_id (jobB 3)" and updatedJobData = ?upd] unseen
  have third: "updateJob ''other'' (job_id (jobB 3)) ?upd ?queues
                 = (False, ?queues(''other'' \<mapsto> []))"
    by blast
  from first second third show ?thesis
    by simp
qed

text \<open>
  C10, as the claim states it, fails: \<open>getNextJob\<close> goes through \<open>getQueue\<close>, which
  registers an empty queue for a name the store has not seen. Asked for the next job of
  \<open>q\<close>, the empty store is no longer empty afterwards.
\<close>

theorem getNextJob_registers_queue:
  "snd (getNextJob ''q'' Map.empty) \<noteq> Map.empty"
  by (simp add: getNextJob_def getQueue_def)

text \<open>
  C10, amended. \<open>getNextJob\<close> returns the first job of the queue and removes or modifies no
  job; it returns \<open>null\<close> exactly when the queue holds no job. A store that has a queue
  under the name is left as it was; a store that has none gets the empty queue registered
  under the name and is otherwise left as it was.
\<close>

theorem getNextJob_reads_head:
  "getNextJob queueName queues =
     (case queues queueName of
        None \<Rightarrow> (None, queues(queueName \<mapsto> []))
      | Some [] \<Rightarrow> (None, queues)
      | Some (job # rest) \<Rightarrow> (Some job, queues))"
  by (simp add: getNextJob_def getQueue_def split: option.splits list.splits)


section \<open>Invariant I1: identifiers within a queue\<close>

lemma distinct_splice1: "distinct (map f xs) \<Longrightarrow> distinct (map f (splice1 i xs))"
proof -
  assume d: "distinct (map f xs)"
  have "map f (splice1 i xs) = take i (map f xs) @ drop (Suc i) (map f xs)"
    by (simp add: splice1_def take_map drop_map)
  moreover have "set (take i (map f xs)) \<inter> set (drop (Suc i) (map f xs)) = {}"
    using d by (intro set_take_disj_set_drop_if_distinct) simp_all
  ultimately show ?thesis using d by simp
qed

lemma noDuplicateIds_getQueue:
  "noDuplicateIds (snd (getQueue queueName queues)) n = noDuplicateIds queues n"
  by (simp add: noDuplicateIds_def jobsOf_def getQueue_def split: option.splits)

lemma noDuplicateIds_addJob:
  "noDuplicateIds queues n \<Longrightarrow> noDuplicateIds (addJob digest now queueName jobData r d queues) n"
  by (auto simp: noDuplicateIds_def jobsOf_def addJob_def hasJob_def getQueue_def list_ex_iff
                 Let_def
           split: option.splits if_splits)

lemma noDuplicateIds_dequeueJob:
  "noDuplicateIds queues n \<Longrightarrow> noDuplicateIds (dequeueJob queueName jobId queues) n"
  by (auto simp: noDuplicateIds_def jobsOf_def dequeueJob_def getQueue_def distinct_splice1
           split: option.splits)

lemma job_id_spread:
  "id_upd updatedJobData = None \<or> id_upd updatedJobData = Some (job_id job) \<Longrightarrow>
     job_id (spread job updatedJobData) = job_id job"
  by (auto simp: spread_def)

lemma noDuplicateIds_updateJob:
  assumes "noDuplicateIds queues n"
    and "id_upd updatedJobData = None \<or> id_upd updatedJobData = Some jobId"
  shows "noDuplicateIds (snd (updateJob queueName jobId updatedJobData queues)) n"
proof (cases "queues queueName")
  case None
  with assms(1) show ?thesis
    by (simp add: updateJob_def getQueue_def noDuplicateIds_def jobsOf_def)
next
  case (Some queue)
  show ?thesis
  proof (cases "findIndex (\<lambda>job. job_id job = jobId) queue")
    case None
    with Some assms(1) show ?thesis
      by (simp add: updateJob_def getQueue_def)
  next
    case (Some i)
    from findIndex_Some [OF Some] have i: "i < length queue" "job_id (queue ! i) = jobId"
      by simp_all
    with assms(2) have "job_id (spread (queue ! i) updatedJobData) = job_id (queue ! i)"
      by (intro job_id_spread) simp
    then have "map job_id (queue[i := spread (queue ! i) updatedJobData]) = map job_id queue"
      using i(1) by (simp add: map_update list_update_same_conv)
    with Some \<open>queues queueName = Some queue\<close> assms(1) show ?thesis
      by (auto simp: updateJob_def getQueue_def noDuplicateIds_def jobsOf_def)
  qed
qed

lemma noDuplicateIds_perform:
  "keepsId operation \<Longrightarrow> noDuplicateIds queues n \<Longrightarrow> noDuplicateIds (perform digest operation queues) n"
proof (cases operation)
  case (AddJob queueName jobData r d now)
  assume "noDuplicateIds queues n"
  with AddJob show ?thesis by (simp add: noDuplicateIds_addJob)
next
  case (GetNextJob queueName)
  assume "noDuplicateIds queues n"
  with GetNextJob show ?thesis
    by (simp add: getNextJob_def noDuplicateIds_getQueue split: prod.splits)
       (metis noDuplicateIds_getQueue snd_conv)
next
  case (DequeueJob queueName jobId)
  assume "noDuplicateIds queues n"
  with DequeueJob show ?thesis by (simp add: noDuplicateIds_dequeueJob)
next
  case (HasJob queueName jobId)
  assume "noDuplicateIds queues n"
  with HasJob show ?thesis
    by (simp add: hasJob_def split: prod.splits) (metis noDuplicateIds_getQueue snd_conv)
next
  case (UpdateJob queueName jobId updatedJobData)
  assume "keepsId operation" "noDuplicateIds queues n"
  with UpdateJob show ?thesis by (simp add: noDuplicateIds_updateJob)
qed

lemma noDuplicateIds_performAll:
  "\<forall>operation \<in> set operations. keepsId operation \<Longrightarrow> noDuplicateIds queues n \<Longrightarrow>
     noDuplicateIds (performAll digest operations queues) n"
  by (induction operations arbitrary: queues) (simp_all add: noDuplicateIds_perform)

text \<open>
  C8, as the claim states it, fails: \<open>updateJob\<close> merges whatever partial fields it is
  given, and \<open>Partial<Job>\<close> includes \<open>id\<close>. Two jobs are enqueued, then the second is
  updated with the id of the first: the queue holds two jobs with one id.
\<close>

theorem updateJob_can_duplicate_id:
  "\<not> noDuplicateIds
       (performAll sampleDigest
          [AddJob ETA_LIDER_TASK jobDataA 3 0 1000,
           AddJob ETA_LIDER_TASK jobDataB 3 0 2000,
           UpdateJob ETA_LIDER_TASK (job_id (jobB 3))
             (noFields\<lparr>id_upd := Some (job_id (jobA 3))\<rparr>)]
          Map.empty)
       ETA_LIDER_TASK"
  by (simp add: noDuplicateIds_def jobsOf_def addJob_def hasJob_def getQueue_def updateJob_def
        spread_def noFields_def sample_defs)

text \<open>
  C8, amended. Starting from the empty store, after every sequence of \<open>addJob\<close>,
  \<open>getNextJob\<close>, \<open>dequeueJob\<close>, \<open>hasJob\<close> and \<open>updateJob\<close> calls in which no \<open>updateJob\<close>
  is given an \<open>id\<close> field other than the id it addresses, no two jobs of a queue share
  an id, for every queue name.
\<close>

theorem ids_stay_unique:
  "\<forall>operation \<in> set operations. keepsId operation \<Longrightarrow>
     noDuplicateIds (performAll digest operations Map.empty) queueName"
  by (rule noDuplicateIds_performAll) (simp_all add: noDuplicateIds_def jobsOf_def)

theorem ids_stay_unique_witness:
  "noDuplicateIds
     (performAll sampleDigest
        [AddJob ETA_LIDER_TASK jobDataA 3 0 1000,
         AddJob ETA_LIDER_TASK jobDataB 3 0 2000,
         AddJob ETA_LIDER_TASK jobDataA 1 50 3000,
         UpdateJob ETA_LIDER_TASK (job_id (jobB 3)) (noFields\<lparr>retries_upd := Some 2\<rparr>),
         HasJob ETA_LIDER_TASK (job_id (jobA 3)),
         GetNextJob ETA_LIDER_TASK,
         DequeueJob ETA_LIDER_TASK (job_id (jobA 3))]
        Map.empty)
     ETA_LIDER_TASK"
proof -
  let ?operations = "[AddJob ETA_LIDER_TASK jobDataA 3 0 1000,
                      AddJob ETA_LIDER_TASK jobDataB 3 0 2000,
                      AddJob ETA_LIDER_TASK jobDataA 1 50 3000,
                      UpdateJob ETA_LIDER_TASK (job_id (jobB 3)) (noFields\<lparr>retries_upd := Some 2\<rparr>),
                      HasJob ETA_LIDER_TASK (job_id (jobA 3)),
                      GetNextJob ETA_LIDER_TASK,
                      DequeueJob ETA_LIDER_TASK (job_id (jobA 3))]"
  have safe: "\<forall>operation \<in> set ?operations. keepsId operation"
    by (simp add: noFields_def)
  from ids_stay_unique [OF safe, of sampleDigest ETA_LIDER_TASK]
  show ?thesis .
qed

section \<open>Facts about one turn of the loop and about whole passes\<close>

lemma liveQueue_Some [simp]: "queues ETA_LIDER_TASK = Some queue \<Longrightarrow> liveQueue queues = queue"
  by (simp add: liveQueue_def)

lemma liveQueue_upd [simp]: "liveQueue (queues(ETA_LIDER_TASK \<mapsto> queue)) = queue"
  by (simp add: liveQueue_def)



















section \<open>The pass on concrete queues\<close>

lemmas pass_defs =
  processQueue_def getQueue_def processLoop.simps processJob_def liveQueue_def
  dequeueJob_def updateJob_def splice1_def spread_def noFields_def dispatch_def

text \<open>
  C1 asks that every job in the queue at the start of a pass be dispatched once in that
  pass. The pass walks the live array by index while \<open>dequeueJob\<close> splices it: with two
  jobs queued and a remote end that answers every call, the first job is dispatched and
  removed, the second moves to position 0, \<open>index\<close> becomes 1 and the loop ends. The second
  job is never dispatched in this pass and is still queued after it.
\<close>

theorem pass_skips_job_after_removal:
  "processQueue allResolve [ETA_LIDER_TASK \<mapsto> [jobA 3, jobB 3]]
     = (Returned, [ETA_LIDER_TASK \<mapsto> [jobB 3]], [jobA 3])"
  by (simp add: pass_defs sample_defs allResolve_def)

text \<open>
  C2 asks that A (no retries left, its call throws) and B (three retries, its call would
  resolve), enqueued in this order, both be gone after one pass. A is dropped, which
  moves B under the index already used: B is not dispatched, and the queue after the
  pass still holds B.
\<close>

theorem partial_failure_leaves_second_job:
  "processQueue readsThrow
     (addJob sampleDigest 2000 ETA_LIDER_TASK jobDataB 3 0
       (addJob sampleDigest 1000 ETA_LIDER_TASK jobDataA 0 0 Map.empty))
     = (Returned, [ETA_LIDER_TASK \<mapsto> [jobB 3]], [jobA 0])"
  by (simp add: pass_defs sample_defs readsThrow_def addJob_def hasJob_def)

text \<open>
  C6 asks that a failed dispatch leave the rest of the pass untouched: every remaining
  job is still dispatched. With three jobs queued and a remote end that throws on every
  call, the first job (no retries left) is dropped, and the job behind it is passed over:
  the call for B is never made.
\<close>

theorem failed_dispatch_hides_next_job:
  "processQueue allThrow [ETA_LIDER_TASK \<mapsto> [jobA 0, jobB 3, jobC 3]]
     = (Returned, [ETA_LIDER_TASK \<mapsto> [jobB 3, jobC 2]], [jobA 0, jobC 3])"
  by (simp add: pass_defs sample_defs allThrow_def)

text \<open>
  A pass can also reject: when the job at the last position is dispatched, answered and
  removed, \<open>queue[index]\<close> is \<open>undefined\<close> at the log line. A single queued job whose call
  resolves is removed, and \<open>processQueue\<close> ends with the \<open>TypeError\<close>.
\<close>

lemma pass_rejects_after_last_job_resolves:
  "processQueue allResolve [ETA_LIDER_TASK \<mapsto> [jobA 3]]
     = (Rejected, [ETA_LIDER_TASK \<mapsto> []], [jobA 3])"
  by (simp add: pass_defs sample_defs allResolve_def)

text \<open>
  The error thrown by a remote call is itself always caught: when \<open>processQueue\<close> rejects,
  the last call it made had resolved (the rejection is the \<open>TypeError\<close> of reading
  \<open>queue[index]\<close> behind the end of the shrunken array).
\<close>

lemma processLoop_rejected:
  "processLoop etaLiderService index queues dispatched = (Rejected, queues', dispatched') \<Longrightarrow>
     dispatched' \<noteq> [] \<and> dispatch etaLiderService (job_data (last dispatched'))"
proof (induction etaLiderService index queues dispatched rule: processLoop.induct)
  case (1 etaLiderService index queues dispatched)
  show ?case
  proof (cases "index < length (liveQueue queues)")
    case False
    with "1.prems" show ?thesis
      by (simp add: processLoop.simps [of _ index])
  next
    case True
    show ?thesis
    proof (cases "processJob etaLiderService index queues")
      case (Continue queues1)
      with True "1.prems"
      have "processLoop etaLiderService (Suc index) queues1
              (dispatched @ [liveQueue queues ! index]) = (Rejected, queues', dispatched')"
        by (simp add: processLoop.simps [of _ index])
      with "1.IH" [OF True Continue] show ?thesis by simp
    next
      case (Throw queues1)
      then have "dispatch etaLiderService (job_data (liveQueue queues ! index))"
        by (auto simp: processJob_def Let_def split: if_splits)
      moreover from Throw True "1.prems"
      have "dispatched' = dispatched @ [liveQueue queues ! index]"
        by (simp add: processLoop.simps [of _ index])
      ultimately show ?thesis by simp
    qed
  qed
qed

lemma processQueue_rejected:
  "processQueue etaLiderService queues = (Rejected, queues', dispatched) \<Longrightarrow>
     dispatched \<noteq> [] \<and> dispatch etaLiderService (job_data (last dispatched))"
  by (auto simp: processQueue_def split: prod.splits if_splits dest: processLoop_rejected)

section \<open>Retries\<close>

text \<open>
  C3, as the claim states it, fails: a job enqueued with three retries whose call throws
  in every pass is still queued after the third pass, with no retries left. The job is
  removed by the pass that finds \<open>retries\<close> at 0, which is the fourth.
\<close>

theorem job_with_three_retries_survives_third_pass:
  "fst (hasJob ETA_LIDER_TASK (job_id (jobB 3))
     (fst (runPasses [allThrow, allThrow, allThrow]
        (addJob sampleDigest 2000 ETA_LIDER_TASK jobDataB 3 0 Map.empty))))"
  by (simp add: pass_defs sample_defs allThrow_def addJob_def hasJob_def)

text \<open>
  C3, amended. A job enqueued alone with \<open>retries = 3\<close> whose call throws in every pass is
  in the queue after pass 1 with 2 retries, after pass 2 with 1, after pass 3 with 0, and
  is gone after pass 4.
\<close>

theorem three_retries_mean_four_passes:
  assumes "\<not> dispatch pass1 jobData" and "\<not> dispatch pass2 jobData"
    and "\<not> dispatch pass3 jobData" and "\<not> dispatch pass4 jobData"
  shows "liveQueue (fst (runPasses [pass1]
             (addJob digest now ETA_LIDER_TASK jobData 3 delay' Map.empty)))
           = [(createJob digest now ETA_LIDER_TASK jobData 3 delay')\<lparr>retries := 2\<rparr>]
       \<and> liveQueue (fst (runPasses [pass1, pass2]
             (addJob digest now ETA_LIDER_TASK jobData 3 delay' Map.empty)))
           = [(createJob digest now ETA_LIDER_TASK jobData 3 delay')\<lparr>retries := 1\<rparr>]
       \<and> liveQueue (fst (runPasses [pass1, pass2, pass3]
             (addJob digest now ETA_LIDER_TASK jobData 3 delay' Map.empty)))
           = [(createJob digest now ETA_LIDER_TASK jobData 3 delay')\<lparr>retries := 0\<rparr>]
       \<and> liveQueue (fst (runPasses [pass1, pass2, pass3, pass4]
             (addJob digest now ETA_LIDER_TASK jobData 3 delay' Map.empty)))
           = []"
  using assms
  by (simp add: processQueue_def getQueue_def processLoop.simps processJob_def liveQueue_def
        dequeueJob_def updateJob_def splice1_def spread_def noFields_def addJob_def hasJob_def
        createJob_def)

theorem three_retries_mean_four_passes_witness:
  "\<not> dispatch allThrow jobDataB
   \<and> liveQueue (fst (runPasses [allThrow]
        (addJob sampleDigest 2000 ETA_LIDER_TASK jobDataB 3 0 Map.empty))) = [jobB 2]
   \<and> liveQueue (fst (runPasses [allThrow, allThrow]
        (addJob sampleDigest 2000 ETA_LIDER_TASK jobDataB 3 0 Map.empty))) = [jobB 1]
   \<and> liveQueue (fst (runPasses [allThrow, allThrow, allThrow]
        (addJob sampleDigest 2000 ETA_LIDER_TASK jobDataB 3 0 Map.empty))) = [jobB 0]
   \<and> liveQueue (fst (runPasses [allThrow, allThrow, allThrow, allThrow]
        (addJob sampleDigest 2000 ETA_LIDER_TASK jobDataB 3 0 Map.empty))) = []"
proof -
  have throws: "\<not> dispatch allThrow jobDataB"
    by (simp add: dispatch_def allThrow_def jobDataB_def)
  have "(createJob sampleDigest 2000 ETA_LIDER_TASK jobDataB 3 0)\<lparr>retries := r\<rparr> = jobB r" for r
    by (simp add: jobB_def createJob_def)
  with three_retries_mean_four_passes [OF throws throws throws throws, of sampleDigest 2000 0]
    throws
  show ?thesis by simp
qed

section \<open>One failed dispatch within a pass\<close>




section \<open>The delay field\<close>

lemma findIndex_map: "findIndex P (map f xs) = findIndex (\<lambda>x. P (f x)) xs"
  by (induction xs) simp_all

lemma withoutDelays_upd:
  "withoutDelays (queues(queueName \<mapsto> queue)) = (withoutDelays queues)(queueName \<mapsto> map withoutDelay queue)"
  by (auto simp: withoutDelays_def)

lemma liveQueue_withoutDelays: "liveQueue (withoutDelays queues) = map withoutDelay (liveQueue queues)"
  by (simp add: liveQueue_def withoutDelays_def split: option.splits)

lemma splice1_map: "splice1 i (map f xs) = map f (splice1 i xs)"
  by (simp add: splice1_def take_map drop_map)

lemma getQueue_withoutDelays:
  "getQueue queueName (withoutDelays queues)
     = (map withoutDelay (fst (getQueue queueName queues)), withoutDelays (snd (getQueue queueName queues)))"
  by (auto simp: getQueue_def withoutDelays_def split: option.splits)

lemma dequeueJob_withoutDelays:
  "dequeueJob queueName jobId (withoutDelays queues) = withoutDelays (dequeueJob queueName jobId queues)"
  by (simp add: dequeueJob_def getQueue_withoutDelays findIndex_map withoutDelay_def
                withoutDelays_upd splice1_map
           split: prod.splits option.splits)

lemma spread_withoutDelay:
  "delay_upd updatedJobData = None \<Longrightarrow>
     spread (withoutDelay job) updatedJobData = withoutDelay (spread job updatedJobData)"
  by (simp add: spread_def withoutDelay_def split: option.splits)

lemma updateJob_withoutDelays:
  assumes "delay_upd updatedJobData = None"
  shows "updateJob queueName jobId updatedJobData (withoutDelays queues)
     = (fst (updateJob queueName jobId updatedJobData queues),
        withoutDelays (snd (updateJob queueName jobId updatedJobData queues)))"
proof -
  obtain queue queues1 where g: "getQueue queueName queues = (queue, queues1)"
    by (cases "getQueue queueName queues")
  have same: "(\<lambda>x. job_id (withoutDelay x) = jobId) = (\<lambda>job. job_id job = jobId)"
    by (simp add: withoutDelay_def)
  show ?thesis
  proof (cases "findIndex (\<lambda>job. job_id job = jobId) queue")
    case None
    with g show ?thesis
      by (simp add: updateJob_def getQueue_withoutDelays findIndex_map same)
  next
    case (Some i)
    from findIndex_Some [OF Some] have "i < length queue" by simp
    with Some g assms show ?thesis
      by (simp add: updateJob_def getQueue_withoutDelays findIndex_map same withoutDelays_upd
                    map_update spread_withoutDelay)
  qed
qed

lemma withoutDelay_retries:
  "withoutDelay (job\<lparr>retries := r\<rparr>) = (withoutDelay job)\<lparr>retries := r\<rparr>"
  by (cases job) (simp add: withoutDelay_def)

lemma processJob_withoutDelays:
  assumes "index < length (liveQueue queues)"
  shows "processJob etaLiderService index (withoutDelays queues)
           = stepWithoutDelays (processJob etaLiderService index queues)"
proof -
  let ?job = "liveQueue queues ! index"
  have at: "liveQueue (withoutDelays queues) ! index = withoutDelay ?job"
    using assms by (simp add: liveQueue_withoutDelays)
  have fields: "job_id (withoutDelay ?job) = job_id ?job" "job_data (withoutDelay ?job) = job_data ?job"
    "retries (withoutDelay ?job) = retries ?job"
    by (simp_all add: withoutDelay_def)
  show ?thesis
  proof (cases "dispatch etaLiderService (job_data ?job)")
    case True
    with assms show ?thesis
      by (simp add: processJob_def Let_def fields dequeueJob_withoutDelays
                    liveQueue_withoutDelays stepWithoutDelays_def)
  next
    case False
    show ?thesis
    proof (cases "0 < retries ?job")
      case nomore: False
      with False assms show ?thesis
        by (simp add: processJob_def Let_def fields dequeueJob_withoutDelays
                      liveQueue_withoutDelays stepWithoutDelays_def)
    next
      case True
      let ?queues1 = "queues(ETA_LIDER_TASK \<mapsto> (liveQueue queues)[index := ?job\<lparr>retries := retries ?job - 1\<rparr>])"
      have q1: "(withoutDelays queues)(ETA_LIDER_TASK \<mapsto>
                  (liveQueue (withoutDelays queues))[index := (withoutDelay ?job)\<lparr>retries := retries ?job - 1\<rparr>])
                = withoutDelays ?queues1"
        by (simp add: withoutDelays_upd liveQueue_withoutDelays map_update withoutDelay_retries)
      have at1: "liveQueue (withoutDelays ?queues1) ! index = withoutDelay (liveQueue ?queues1 ! index)"
        using assms by (simp add: liveQueue_withoutDelays liveQueue_def [of "_(_ \<mapsto> _)"])
      have nodelay: "delay_upd (noFields\<lparr>retries_upd := Some r\<rparr>) = None" for r
        by (simp add: noFields_def)
      have kept: "job_id (withoutDelay job) = job_id job" "retries (withoutDelay job) = retries job"
        for job
        by (simp_all add: withoutDelay_def)
      from False True assms show ?thesis
        by (simp add: processJob_def Let_def at fields q1 at1 updateJob_withoutDelays nodelay
                      stepWithoutDelays_def kept)
    qed
  qed
qed

lemma processLoop_withoutDelays:
  "processLoop etaLiderService index (withoutDelays queues) (map withoutDelay dispatched)
     = (case processLoop etaLiderService index queues dispatched of
          (outcome, queues', dispatched') \<Rightarrow>
            (outcome, withoutDelays queues', map withoutDelay dispatched'))"
proof (induction etaLiderService index queues dispatched rule: processLoop.induct)
  case (1 etaLiderService index queues dispatched)
  show ?case
  proof (cases "index < length (liveQueue queues)")
    case False
    then show ?thesis
      by (simp add: processLoop.simps [of _ index] liveQueue_withoutDelays)
  next
    case True
    show ?thesis
    proof (cases "processJob etaLiderService index queues")
      case (Throw queues1)
      with True show ?thesis
        by (simp add: processLoop.simps [of _ index] liveQueue_withoutDelays
                      processJob_withoutDelays stepWithoutDelays_def)
    next
      case (Continue queues1)
      from "1.IH" [OF True Continue] Continue True show ?thesis
        by (simp add: processLoop.simps [of _ index] liveQueue_withoutDelays
                      processJob_withoutDelays stepWithoutDelays_def)
    qed
  qed
qed

lemma processQueue_withoutDelays:
  "processQueue etaLiderService (withoutDelays queues)
     = (case processQueue etaLiderService queues of
          (outcome, queues', dispatched) \<Rightarrow>
            (outcome, withoutDelays queues', map withoutDelay dispatched))"
  using processLoop_withoutDelays [of etaLiderService 0 "snd (getQueue ETA_LIDER_TASK queues)" "[]"]
  by (simp add: processQueue_def getQueue_withoutDelays split: prod.splits)

text \<open>
  C9. The pass never reads the \<open>delay\<close> of a job. Two stores that differ at most in the
  delays of their jobs give, under the same remote end, passes that end the same way,
  dispatch the same jobs in the same order, and leave stores that again differ at most in
  the delays.
\<close>

theorem delay_not_consulted:
  assumes "withoutDelays queuesA = withoutDelays queuesB"
  shows "fst (processQueue etaLiderService queuesA) = fst (processQueue etaLiderService queuesB)
       \<and> withoutDelays (fst (snd (processQueue etaLiderService queuesA)))
           = withoutDelays (fst (snd (processQueue etaLiderService queuesB)))
       \<and> map withoutDelay (snd (snd (processQueue etaLiderService queuesA)))
           = map withoutDelay (snd (snd (processQueue etaLiderService queuesB)))"
proof -
  have "processQueue etaLiderService (withoutDelays queuesA)
          = processQueue etaLiderService (withoutDelays queuesB)"
    using assms by simp
  then show ?thesis
    by (simp add: processQueue_withoutDelays split: prod.splits)
qed


theorem delay_not_consulted_witness:
  "withoutDelays [ETA_LIDER_TASK \<mapsto> [jobA 3, jobB 3, jobC 3]]
     = withoutDelays [ETA_LIDER_TASK \<mapsto> [jobA 3\<lparr>delay := 60000\<rparr>, jobB 3, jobC 3\<lparr>delay := 5\<rparr>]]
   \<and> fst (processQueue readsThrow [ETA_LIDER_TASK \<mapsto> [jobA 3, jobB 3, jobC 3]])
       = fst (processQueue readsThrow
               [ETA_LIDER_TASK \<mapsto> [jobA 3\<lparr>delay := 60000\<rparr>, jobB 3, jobC 3\<lparr>delay := 5\<rparr>]])
   \<and> map withoutDelay (snd (snd (processQueue readsThrow
               [ETA_LIDER_TASK \<mapsto> [jobA 3\<lparr>delay := 60000\<rparr>, jobB 3, jobC 3\<lparr>delay := 5\<rparr>]])))
       = [jobA 3, jobB 3]"
proof -
  let ?queuesA = "[ETA_LIDER_TASK \<mapsto> [jobA 3, jobB 3, jobC 3]]"
  let ?queuesB = "[ETA_LIDER_TASK \<mapsto> [jobA 3\<lparr>delay := 60000\<rparr>, jobB 3, jobC 3\<lparr>delay := 5\<rparr>]]"
  have same: "withoutDelays ?queuesA = withoutDelays ?queuesB"
    by (simp add: withoutDelays_def withoutDelay_def fun_eq_iff)
  have "map withoutDelay (snd (snd (processQueue readsThrow ?queuesA))) = [jobA 3, jobB 3]"
    by (simp add: pass_defs sample_defs readsThrow_def withoutDelay_def)
  with delay_not_consulted [OF same, of readsThrow] same
  show ?thesis by simp
qed

end
